theory Spec2Isabelle
  imports Main "HOL-Library.AList"
begin

section \<open>Python values used by the programs\<close>

text \<open>
  A Python \<open>str\<close> is modelled as a \<open>string\<close>; each \<open>char\<close> stands for one code point
  below 256, so \<open>length\<close> is Python's \<open>len\<close>. Exceptions are values of \<open>py_error\<close>,
  a function that may raise returns \<open>py_error + 'a\<close>.
\<close>

datatype py_error =
    AttributeError
  | TypeError
  | ZeroDivisionError
  | FileNotFoundError
  | ExternalError string

text \<open>What \<open>json.load\<close> can return. A float is carried as its \<open>repr\<close>, the only
  thing these programs observe of it.\<close>

datatype json =
    JNull
  | JBool bool
  | JInt int
  | JFloat string
  | is_JStr: JStr string
  | JList "json list"
  | JObj "(string \<times> json) list"

definition bind_err :: "py_error + 'a \<Rightarrow> ('a \<Rightarrow> py_error + 'b) \<Rightarrow> py_error + 'b" where
  "bind_err m f = (case m of Inl e \<Rightarrow> Inl e | Inr x \<Rightarrow> f x)"

subsection \<open>\<open>str.strip()\<close>\<close>

text \<open>The code points below 256 for which \<open>str.isspace\<close> holds.\<close>

definition is_space :: "char \<Rightarrow> bool" where
  "is_space c = (c \<in> set [CHR 0x09, CHR 0x0A, CHR 0x0B, CHR 0x0C, CHR 0x0D,
                            CHR 0x1C, CHR 0x1D, CHR 0x1E, CHR 0x1F, CHR 0x20,
                            CHR 0x85, CHR 0xA0])"

definition strip :: "string \<Rightarrow> string" where
  "strip s = rev (dropWhile is_space (rev (dropWhile is_space s)))"

subsection \<open>\<open>str()\<close>, \<open>repr()\<close> and \<open>str.join\<close>\<close>

definition digit_char :: "nat \<Rightarrow> char" where
  "digit_char d = char_of (48 + d)"

fun str_nat :: "nat \<Rightarrow> string" where
  "str_nat n = (if n < 10 then [digit_char n] else str_nat (n div 10) @ [digit_char (n mod 10)])"

declare str_nat.simps [simp del]

definition str_int :: "int \<Rightarrow> string" where
  "str_int i = (if i < 0 then CHR ''-'' # str_nat (nat (- i)) else str_nat (nat i))"

definition hex_char :: "nat \<Rightarrow> char" where
  "hex_char d = (if d < 10 then char_of (48 + d) else char_of (87 + d))"

definition py_printable :: "char \<Rightarrow> bool" where
  "py_printable c =
     (let n = (of_char c :: nat)
      in (32 \<le> n \<and> n < 127) \<or> (161 \<le> n \<and> n \<noteq> 173))"

definition repr_char :: "char \<Rightarrow> char \<Rightarrow> string" where
  "repr_char quote c =
     (if c = quote \<or> c = CHR 0x5C then [CHR 0x5C, c]
      else if c = CHR 0x09 then [CHR 0x5C, CHR ''t'']
      else if c = CHR 0x0A then [CHR 0x5C, CHR ''n'']
      else if c = CHR 0x0D then [CHR 0x5C, CHR ''r'']
      else if py_printable c then [c]
      else [CHR 0x5C, CHR ''x'', hex_char ((of_char c :: nat) div 16),
            hex_char ((of_char c :: nat) mod 16)])"

definition repr_str :: "string \<Rightarrow> string" where
  "repr_str s =
     (let quote = (if CHR 0x27 \<in> set s \<and> CHR 0x22 \<notin> set s then CHR 0x22 else CHR 0x27)
      in quote # concat (map (repr_char quote) s) @ [quote])"

fun join :: "string \<Rightarrow> string list \<Rightarrow> string" where
  "join sep [] = []"
| "join sep [x] = x"
| "join sep (x # y # ys) = x @ sep @ join sep (y # ys)"

fun py_repr :: "json \<Rightarrow> string" where
  "py_repr JNull = ''None''"
| "py_repr (JBool b) = (if b then ''True'' else ''False'')"
| "py_repr (JInt i) = str_int i"
| "py_repr (JFloat r) = r"
| "py_repr (JStr s) = repr_str s"
| "py_repr (JList xs) = ''['' @ join '', '' (map py_repr xs) @ '']''"
| "py_repr (JObj kvs) =
     ''{'' @ join '', '' (map (\<lambda>(k, v). repr_str k @ '': '' @ py_repr v) kvs) @ ''}''"

text \<open>\<open>str(v)\<close>, which is also what an f-string field \<open>{v}\<close> inserts.\<close>

definition py_str :: "json \<Rightarrow> string" where
  "py_str v = (case v of JStr s \<Rightarrow> s | _ \<Rightarrow> py_repr v)"

text \<open>\<open>sep.join(xs)\<close> raises \<open>TypeError\<close> at the first item that is not a \<open>str\<close>.\<close>

fun strs_of :: "json list \<Rightarrow> py_error + string list" where
  "strs_of [] = Inr []"
| "strs_of (JStr s # xs) = bind_err (strs_of xs) (\<lambda>ss. Inr (s # ss))"
| "strs_of (_ # xs) = Inl TypeError"

definition str_join :: "string \<Rightarrow> json list \<Rightarrow> py_error + string" where
  "str_join sep xs = bind_err (strs_of xs) (\<lambda>ss. Inr (join sep ss))"

text \<open>\<open>d.get(k, default)\<close>: only a \<open>dict\<close> has the method.\<close>

fun py_get :: "json \<Rightarrow> string \<Rightarrow> json \<Rightarrow> py_error + json" where
  "py_get (JObj kvs) k d = Inr (case map_of kvs k of None \<Rightarrow> d | Some v \<Rightarrow> v)"
| "py_get _ k d = Inl AttributeError"

text \<open>\<open>v[:n]\<close>: a \<open>str\<close> or a \<open>list\<close> is sliced, anything else raises.\<close>

fun py_prefix :: "json \<Rightarrow> nat \<Rightarrow> py_error + json" where
  "py_prefix (JStr s) n = Inr (JStr (take n s))"
| "py_prefix (JList xs) n = Inr (JList (take n xs))"
| "py_prefix _ n = Inl TypeError"

section \<open>\<open>utils/embedding_utils.py\<close>\<close>

text \<open>Calls to the external services and \<open>time.sleep\<close>, in the order they are issued.\<close>

datatype 'v event =
    is_EmbedContent: EmbedContent string
  | CollectionAdd string string
  | is_CollectionQuery: CollectionQuery string 'v int
  | GenerateContent string
  | Sleep

text \<open>The provider \<open>client.models.embed_content\<close> is a parameter: it raises or returns
  \<open>result.embeddings[0].values\<close>, which the SDK types as optional.\<close>

type_synonym 'v embedder = "string \<Rightarrow> py_error + 'v option"

definition get_embedding ::
  "'v embedder \<Rightarrow> string \<Rightarrow> (py_error + 'v option) \<times> 'v event list" where
  "get_embedding provider text =
     (if text = [] \<or> strip text = [] then (Inr None, [])
      else (provider text, [EmbedContent text]))"

section \<open>The vector store\<close>

record 'v entry =
  entry_embedding :: 'v
  entry_metadata :: "(string \<times> string) list"
  entry_document :: string

text \<open>A collection holds its entries by id, in insertion order.\<close>

type_synonym 'v collection = "(string \<times> 'v entry) list"

text \<open>Modelled from the spec: the store operation behind \<open>collection.add\<close> belongs to
  the vector database client, which is not part of the repository. The spec describes it
  as "stores or overwrites an entry by id".\<close>

definition collection_add ::
  "'v collection \<Rightarrow> string \<Rightarrow> 'v \<Rightarrow> (string \<times> string) list \<Rightarrow> string \<Rightarrow> 'v collection" where
  "collection_add c ident v md doc =
     AList.update ident \<lparr>entry_embedding = v, entry_metadata = md, entry_document = doc\<rparr> c"

text \<open>Modelled from the spec: the store operation behind \<open>collection.query\<close>, "returns up
  to k nearest entries ranked by distance in the store's native metric". The ranking
  \<open>nearest\<close> is the store's own and stays a parameter; the result is the \<open>metadatas\<close> row
  of the single query vector.\<close>

definition collection_query ::
  "('v \<Rightarrow> 'v entry list \<Rightarrow> 'v entry list) \<Rightarrow> 'v collection \<Rightarrow> 'v \<Rightarrow> int \<Rightarrow> (string \<times> string) list list" where
  "collection_query nearest c v n_results =
     map entry_metadata (take (nat n_results) (nearest v (map snd c)))"

section \<open>\<open>embed_products.py\<close> and \<open>embed_faqs.py\<close>\<close>

definition create_product_text :: "json \<Rightarrow> py_error + string" where
  "create_product_text product =
     bind_err (py_get product ''coverType'' (JList [])) (\<lambda>cover_types.
     bind_err (case cover_types of JList xs \<Rightarrow> str_join '', '' xs
               | _ \<Rightarrow> Inr (py_str cover_types)) (\<lambda>cover_type_str.
     bind_err (py_get product ''productName'' (JStr [])) (\<lambda>name.
     bind_err (py_get product ''brandName'' (JStr [])) (\<lambda>brand.
     bind_err (py_get product ''phoneModel'' (JStr [])) (\<lambda>model.
     bind_err (py_get product ''productDescription'' (JStr [])) (\<lambda>description.
     bind_err (py_get product ''productPrice'' (JStr [])) (\<lambda>price.
     bind_err (py_get product ''productCategory'' (JStr [])) (\<lambda>category.
     Inr (''Product Name: '' @ py_str name @
          ''\<newline>        Brand: '' @ py_str brand @
          ''\<newline>        Model: '' @ py_str model @
          ''\<newline>        Type: '' @ cover_type_str @
          ''\<newline>        Description: '' @ py_str description @
          ''\<newline>        Price: '' @ py_str price @
          ''\<newline>        Category: '' @ py_str category)))))))))"

definition create_faq_text :: "json \<Rightarrow> py_error + string" where
  "create_faq_text faq =
     bind_err (py_get faq ''question'' (JStr [])) (\<lambda>q.
     bind_err (py_get faq ''answer'' (JStr [])) (\<lambda>a.
     Inr (''Q: '' @ py_str q @ ''\<newline>A: '' @ py_str a)))"

text \<open>The metadata dictionaries built inside the loops.\<close>

definition product_metadata :: "json \<Rightarrow> py_error + (string \<times> string) list" where
  "product_metadata product =
     bind_err (py_get product ''productName'' (JStr [])) (\<lambda>name.
     bind_err (py_get product ''productUrl'' (JStr [])) (\<lambda>url.
     bind_err (py_get product ''productImage'' (JStr [])) (\<lambda>image.
     bind_err (py_get product ''productPrice'' (JStr [])) (\<lambda>price.
     bind_err (py_get product ''brandName'' (JStr [])) (\<lambda>brand.
     bind_err (py_get product ''phoneModel'' (JStr [])) (\<lambda>model.
     bind_err (py_get product ''productCategory'' (JStr [])) (\<lambda>category.
     Inr [(''productName'', py_str name),
          (''productUrl'', py_str url),
          (''productImage'', py_str image),
          (''productPrice'', py_str price),
          (''brandName'', py_str brand),
          (''phoneModel'', py_str model),
          (''productCategory'', py_str category)])))))))"

definition faq_metadata :: "json \<Rightarrow> py_error + (string \<times> string) list" where
  "faq_metadata faq =
     bind_err (py_get faq ''question'' (JStr [])) (\<lambda>q.
     bind_err (py_get faq ''answer'' (JStr [])) (\<lambda>a.
     Inr [(''question'', py_str q), (''answer'', py_str a)]))"

text \<open>The state the loops work on: the collection, the two counters, and the calls
  issued so far. \<open>print\<close> is not modelled.\<close>

record 'v ingest_state =
  collection :: "'v collection"
  success_count :: nat
  error_count :: nat
  events :: "'v event list"

text \<open>
  The \<open>try\<close> block of one iteration of \<open>embed_and_store_products\<close>. The first component
  is the exception that leaves the block, if any; the state is the one reached at that
  point. A skipped record counts its error itself and continues.
\<close>

definition product_step ::
  "'v embedder \<Rightarrow> int \<Rightarrow> nat \<Rightarrow> json \<Rightarrow> 'v ingest_state \<Rightarrow> py_error option \<times> 'v ingest_state" where
  "product_step provider batch_size idx product st =
     (case create_product_text product of
        Inl e \<Rightarrow> (Some e, st)
      | Inr text \<Rightarrow>
         (case get_embedding provider text of (r, evs) \<Rightarrow>
           (let st1 = st\<lparr>events := events st @ evs\<rparr> in
            case r of
              Inl e \<Rightarrow> (Some e, st1)
            | Inr None \<Rightarrow> (None, st1\<lparr>error_count := error_count st1 + 1\<rparr>)
            | Inr (Some embedding) \<Rightarrow>
               (case product_metadata product of
                  Inl e \<Rightarrow> (Some e, st1)
                | Inr metadata \<Rightarrow>
                   (let ident = ''product_'' @ str_nat idx;
                        st2 = st1\<lparr>collection :=
                                     collection_add (collection st1) ident embedding metadata text,
                                   success_count := success_count st1 + 1,
                                   events := events st1 @ [CollectionAdd ''products'' ident]\<rparr>
                    in case bind_err (py_get product ''productName'' (JStr ''Unknown''))
                                     (\<lambda>n. py_prefix n 50) of
                         Inl e \<Rightarrow> (Some e, st2)
                       | Inr product_name \<Rightarrow>
                          if batch_size = 0 then (Some ZeroDivisionError, st2)
                          else if (int idx + 1) mod batch_size = 0
                          then (None, st2\<lparr>events := events st2 @ [Sleep]\<rparr>)
                          else (None, st2))))))"

text \<open>The same block of \<open>embed_and_store_faqs\<close>.\<close>

definition faq_step ::
  "'v embedder \<Rightarrow> int \<Rightarrow> nat \<Rightarrow> json \<Rightarrow> 'v ingest_state \<Rightarrow> py_error option \<times> 'v ingest_state" where
  "faq_step provider batch_size idx faq st =
     (case create_faq_text faq of
        Inl e \<Rightarrow> (Some e, st)
      | Inr text \<Rightarrow>
         (case get_embedding provider text of (r, evs) \<Rightarrow>
           (let st1 = st\<lparr>events := events st @ evs\<rparr> in
            case r of
              Inl e \<Rightarrow> (Some e, st1)
            | Inr None \<Rightarrow> (None, st1\<lparr>error_count := error_count st1 + 1\<rparr>)
            | Inr (Some embedding) \<Rightarrow>
               (case faq_metadata faq of
                  Inl e \<Rightarrow> (Some e, st1)
                | Inr metadata \<Rightarrow>
                   (let ident = ''faq_'' @ str_nat idx;
                        st2 = st1\<lparr>collection :=
                                     collection_add (collection st1) ident embedding metadata text,
                                   success_count := success_count st1 + 1,
                                   events := events st1 @ [CollectionAdd ''faqs'' ident]\<rparr>
                    in case bind_err (py_get faq ''question'' (JStr []))
                                     (\<lambda>n. py_prefix n 50) of
                         Inl e \<Rightarrow> (Some e, st2)
                       | Inr label \<Rightarrow>
                          if batch_size = 0 then (Some ZeroDivisionError, st2)
                          else if (int idx + 1) mod batch_size = 0
                          then (None, st2\<lparr>events := events st2 @ [Sleep]\<rparr>)
                          else (None, st2))))))"

text \<open>The \<open>except Exception\<close> clause of an iteration: count the error and go on.\<close>

definition handle_record :: "py_error option \<times> 'v ingest_state \<Rightarrow> 'v ingest_state" where
  "handle_record r =
     (case r of (None, st) \<Rightarrow> st
      | (Some e, st) \<Rightarrow> st\<lparr>error_count := error_count st + 1\<rparr>)"

text \<open>\<open>for idx, record in enumerate(records)\<close>, from position \<open>idx\<close> on.\<close>

fun ingest_loop ::
  "(nat \<Rightarrow> json \<Rightarrow> 'v ingest_state \<Rightarrow> py_error option \<times> 'v ingest_state) \<Rightarrow>
   nat \<Rightarrow> json list \<Rightarrow> 'v ingest_state \<Rightarrow> 'v ingest_state" where
  "ingest_loop step idx [] st = st"
| "ingest_loop step idx (r # rs) st = ingest_loop step (Suc idx) rs (handle_record (step idx r st))"

text \<open>What \<open>len\<close> and \<open>enumerate\<close> make of the loaded data: a list gives its items, a
  dictionary its keys, a string its characters; anything else has no \<open>len\<close>.\<close>

fun py_items :: "json \<Rightarrow> py_error + json list" where
  "py_items (JList xs) = Inr xs"
| "py_items (JObj kvs) = Inr (map (\<lambda>kv. JStr (fst kv)) kvs)"
| "py_items (JStr s) = Inr (map (\<lambda>c. JStr [c]) s)"
| "py_items _ = Inl TypeError"

definition start_state :: "'v collection \<Rightarrow> 'v ingest_state" where
  "start_state c = \<lparr>collection = c, success_count = 0, error_count = 0, events = []\<rparr>"

text \<open>
  The two entry points. \<open>loaded\<close> is the outcome of \<open>load_json(DATA_PATH)\<close> and \<open>c\<close> the
  collection that \<open>get_or_create_collection\<close> hands out. The returned state carries
  the pair \<open>(success_count, error_count)\<close>; any failure outside the loop returns
  \<open>(0, 0)\<close> and leaves the collection alone.
\<close>

definition embed_and_store_products ::
  "'v embedder \<Rightarrow> py_error + json \<Rightarrow> int \<Rightarrow> 'v collection \<Rightarrow> 'v ingest_state" where
  "embed_and_store_products provider loaded batch_size c =
     (case bind_err loaded py_items of
        Inl e \<Rightarrow> start_state c
      | Inr records \<Rightarrow> ingest_loop (product_step provider batch_size) 0 records (start_state c))"

definition embed_and_store_faqs ::
  "'v embedder \<Rightarrow> py_error + json \<Rightarrow> int \<Rightarrow> 'v collection \<Rightarrow> 'v ingest_state" where
  "embed_and_store_faqs provider loaded batch_size c =
     (case bind_err loaded py_items of
        Inl e \<Rightarrow> start_state c
      | Inr records \<Rightarrow> ingest_loop (faq_step provider batch_size) 0 records (start_state c))"

section \<open>\<open>main.py\<close>\<close>

record product_result =
  productName :: string
  productUrl :: string
  productImage :: string
  productPrice :: string
  brandName :: "string option"
  phoneModel :: "string option"

record faq_result =
  question :: string
  answer :: string

record query_request =
  query :: string
  top_k_products :: "int option"
  top_k_faqs :: "int option"
  user_id :: "string option"

record query_response =
  response_query :: string
  responseText :: string
  products :: "product_result list"
  faqs :: "faq_result list"
  hasResults :: bool
  conversationContext :: "string option"

datatype http_error = HTTPException int string

text \<open>
  The module globals: the embedding provider behind \<open>get_embedding\<close>, the two collections
  and the generative client, each \<open>None\<close> when its set-up failed. \<open>generate_content\<close>
  raises or returns \<open>response.text\<close>, which may be \<open>None\<close>.
\<close>

record 'v services =
  embed_content :: "'v embedder"
  nearest :: "'v \<Rightarrow> 'v entry list \<Rightarrow> 'v entry list"
  products_collection :: "'v collection option"
  faqs_collection :: "'v collection option"
  gemini_client :: "(string \<Rightarrow> py_error + string option) option"

text \<open>\<open>metadata.get(k, "")\<close> and the truth value of \<open>metadata.get(k)\<close>.\<close>

definition get_or_empty :: "(string \<times> string) list \<Rightarrow> string \<Rightarrow> string" where
  "get_or_empty md k = (case map_of md k of None \<Rightarrow> [] | Some s \<Rightarrow> s)"

definition truthy :: "string option \<Rightarrow> bool" where
  "truthy v = (case v of None \<Rightarrow> False | Some s \<Rightarrow> s \<noteq> [])"

definition product_of_metadata :: "(string \<times> string) list \<Rightarrow> product_result" where
  "product_of_metadata md =
     \<lparr>productName = get_or_empty md ''productName'',
      productUrl = get_or_empty md ''productUrl'',
      productImage = get_or_empty md ''productImage'',
      productPrice = get_or_empty md ''productPrice'',
      brandName = map_of md ''brandName'',
      phoneModel = map_of md ''phoneModel''\<rparr>"

definition faq_of_metadata :: "(string \<times> string) list \<Rightarrow> faq_result" where
  "faq_of_metadata md =
     \<lparr>question = get_or_empty md ''question'', answer = get_or_empty md ''answer''\<rparr>"

definition retrieve_products ::
  "'v services \<Rightarrow> string \<Rightarrow> int \<Rightarrow> product_result list \<times> 'v event list" where
  "retrieve_products sv query_text top_k =
     (case products_collection sv of
        None \<Rightarrow> ([], [])
      | Some c \<Rightarrow>
         (case get_embedding (embed_content sv) query_text of
            (Inl e, evs) \<Rightarrow> ([], evs)
          | (Inr None, evs) \<Rightarrow> ([], evs)
          | (Inr (Some query_embedding), evs) \<Rightarrow>
             (let n_results = min top_k 10;
                  metadatas = collection_query (nearest sv) c query_embedding n_results
              in (map product_of_metadata
                    (filter (\<lambda>md. truthy (map_of md ''productName'') \<and>
                                   truthy (map_of md ''productPrice'')) metadatas),
                  evs @ [CollectionQuery ''products'' query_embedding n_results]))))"

definition retrieve_faqs ::
  "'v services \<Rightarrow> string \<Rightarrow> int \<Rightarrow> faq_result list \<times> 'v event list" where
  "retrieve_faqs sv query_text top_k =
     (case faqs_collection sv of
        None \<Rightarrow> ([], [])
      | Some c \<Rightarrow>
         (case get_embedding (embed_content sv) query_text of
            (Inl e, evs) \<Rightarrow> ([], evs)
          | (Inr None, evs) \<Rightarrow> ([], evs)
          | (Inr (Some query_embedding), evs) \<Rightarrow>
             (let n_results = min top_k 5;
                  metadatas = collection_query (nearest sv) c query_embedding n_results
              in (map faq_of_metadata
                    (filter (\<lambda>md. truthy (map_of md ''question'') \<and>
                                   truthy (map_of md ''answer'')) metadatas),
                  evs @ [CollectionQuery ''faqs'' query_embedding n_results]))))"

text \<open>The context blocks and the prompt of \<open>generate_response_with_gemini\<close>.\<close>

definition product_context_line :: "nat \<times> product_result \<Rightarrow> string" where
  "product_context_line ip =
     (case ip of (i, pr) \<Rightarrow>
        str_nat i @ ''. '' @ productName pr @ '' - '' @ productPrice pr @ ''\<newline>'' @
        (case brandName pr of
           None \<Rightarrow> []
         | Some b \<Rightarrow> if b \<noteq> [] then ''   Brand: '' @ b @ ''\<newline>'' else []) @
        (case phoneModel pr of
           None \<Rightarrow> []
         | Some m \<Rightarrow> if m \<noteq> [] then ''   Model: '' @ m @ ''\<newline>'' else []))"

definition products_context :: "product_result list \<Rightarrow> string" where
  "products_context ps =
     (if ps = [] then []
      else ''Available Products:\<newline>'' @
           concat (map product_context_line (List.enumerate 1 (take 5 ps))))"

definition faq_context_line :: "nat \<times> faq_result \<Rightarrow> string" where
  "faq_context_line jf =
     (case jf of (i, faq) \<Rightarrow>
        ''Q'' @ str_nat i @ '': '' @ question faq @ ''\<newline>A'' @ str_nat i @ '': '' @
        answer faq @ ''\<newline>\<newline>'')"

definition faqs_context :: "faq_result list \<Rightarrow> string" where
  "faqs_context fs =
     (if fs = [] then []
      else ''\<newline>Frequently Asked Questions:\<newline>'' @
           concat (map faq_context_line (List.enumerate 1 (take 3 fs))))"

definition build_prompt :: "string \<Rightarrow> product_result list \<Rightarrow> faq_result list \<Rightarrow> string" where
  \<open>build_prompt query_text ps fs =
     ''You are a helpful e-commerce chatbot assistant for Casemellow, a phone case store.\<newline>'' @
     ''\<newline>'' @
     ''User Query: "'' @ query_text @ ''"\<newline>'' @
     ''\<newline>'' @
     products_context ps @ ''\<newline>'' @
     ''\<newline>'' @
     faqs_context fs @ ''\<newline>'' @
     ''\<newline>'' @
     ''Instructions:\<newline>'' @
     ''- Provide a friendly, conversational response to the user's query\<newline>'' @
     ''- If products are available, mention them naturally (e.g., "I found some great options for you...")\<newline>'' @
     ''- If FAQs are relevant, incorporate that information naturally\<newline>'' @
     ''- If no products/FAQs are found, politely suggest alternative searches or general help\<newline>'' @
     ''- Keep response concise (2-4 sentences)\<newline>'' @
     ''- Be enthusiastic and helpful\<newline>'' @
     ''- Don't mention technical terms like "embeddings" or "database"\<newline>'' @
     ''- Don't make up product details not in the context\<newline>'' @
     ''\<newline>'' @
     ''Response:''\<close>

text \<open>The fallback of the \<open>except\<close> clause reads the two lists only through their
  lengths.\<close>

definition fallback_response :: "nat \<Rightarrow> nat \<Rightarrow> string" where
  "fallback_response n_products n_faqs =
     (if 0 < n_products
      then ''I found '' @ str_nat n_products @
           '' product(s) that match your query. Check them out below!''
      else if 0 < n_faqs
      then ''I found some helpful information that might answer your question.''
      else ''I couldn't find exactly what you're looking for. Try rephrasing your question or browse our categories!'')"

definition generate_response_with_gemini ::
  "'v services \<Rightarrow> string \<Rightarrow> product_result list \<Rightarrow> faq_result list \<Rightarrow> string \<times> 'v event list" where
  "generate_response_with_gemini sv query_text ps fs =
     (case gemini_client sv of
        None \<Rightarrow>
          (''I'm having trouble connecting to the AI service. Please try again later.'', [])
      | Some generate_content \<Rightarrow>
         (let prompt = build_prompt query_text ps fs
          in (case generate_content prompt of
                Inr (Some text) \<Rightarrow> strip text
              | Inr None \<Rightarrow> fallback_response (length ps) (length fs)
              | Inl e \<Rightarrow> fallback_response (length ps) (length fs),
              [GenerateContent prompt])))"

definition query_chatbot ::
  "'v services \<Rightarrow> query_request \<Rightarrow> (http_error + query_response) \<times> 'v event list" where
  "query_chatbot sv request =
     (let query_text = strip (query request) in
      if query_text = [] then (Inl (HTTPException 400 ''Query cannot be empty.''), [])
      else if 500 < length query_text
      then (Inl (HTTPException 400 ''Query is too long. Max 500 characters.''), [])
      else if products_collection sv = None \<or> faqs_collection sv = None
      then (Inl (HTTPException 503 ''Database not available. Please contact support.''), [])
      else if gemini_client sv = None
      then (Inl (HTTPException 503 ''AI service temporarily unavailable. Please try again.''), [])
      else
        (case top_k_products request of
           None \<Rightarrow>
             (Inl (HTTPException 500
                ''An error occurred processing your request. Please try again.''), [])
         | Some kp \<Rightarrow>
            (case retrieve_products sv query_text (min kp 10) of (ps, evs1) \<Rightarrow>
              (case top_k_faqs request of
                 None \<Rightarrow>
                   (Inl (HTTPException 500
                      ''An error occurred processing your request. Please try again.''), evs1)
               | Some kf \<Rightarrow>
                  (case retrieve_faqs sv query_text (min kf 5) of (fs, evs2) \<Rightarrow>
                    (case generate_response_with_gemini sv query_text ps fs of
                       (response_text, evs3) \<Rightarrow>
                         (Inr \<lparr>response_query = query_text,
                               responseText = response_text,
                               products = ps,
                               faqs = fs,
                               hasResults = (0 < length ps \<or> 0 < length fs),
                               conversationContext =
                                 Some (''Found '' @ str_nat (length ps) @ '' products and '' @
                                       str_nat (length fs) @ '' FAQs'')\<rparr>,
                          evs1 @ evs2 @ evs3)))))))"

section \<open>Notions used to state the properties\<close>

text \<open>
  What one iteration does to an empty start state: the entry it stores (if any), the
  counters it bumps and the calls it issues. A record is \<open>malformed\<close> at a position
  when its iteration counts an error, by an exception or by the skip.
\<close>

definition record_effect ::
  "(nat \<Rightarrow> json \<Rightarrow> 'v ingest_state \<Rightarrow> py_error option \<times> 'v ingest_state) \<Rightarrow> nat \<Rightarrow> json \<Rightarrow> 'v ingest_state" where
  "record_effect step idx r = handle_record (step idx r (start_state []))"

definition malformed ::
  "(nat \<Rightarrow> json \<Rightarrow> 'v ingest_state \<Rightarrow> py_error option \<times> 'v ingest_state) \<Rightarrow> nat \<Rightarrow> json \<Rightarrow> bool" where
  "malformed step idx r = (0 < error_count (record_effect step idx r))"

definition store_all :: "(string \<times> 'v entry) list \<Rightarrow> 'v collection \<Rightarrow> 'v collection" where
  "store_all ups c = fold (\<lambda>kv. AList.update (fst kv) (snd kv)) ups c"

definition merge_state :: "'v ingest_state \<Rightarrow> 'v ingest_state \<Rightarrow> 'v ingest_state" where
  "merge_state st d =
     \<lparr>collection = store_all (collection d) (collection st),
      success_count = success_count st + success_count d,
      error_count = error_count st + error_count d,
      events = events st @ events d\<rparr>"

fun stored_entries ::
  "(nat \<Rightarrow> json \<Rightarrow> 'v ingest_state \<Rightarrow> py_error option \<times> 'v ingest_state) \<Rightarrow> nat \<Rightarrow> json list \<Rightarrow> (string \<times> 'v entry) list" where
  "stored_entries step idx [] = []"
| "stored_entries step idx (r # rs) =
     collection (record_effect step idx r) @ stored_entries step (Suc idx) rs"

definition paced :: "int \<Rightarrow> nat \<Rightarrow> bool" where
  "paced batch_size idx = ((int idx + 1) mod batch_size = 0)"

definition uniform ::
  "(nat \<Rightarrow> json \<Rightarrow> 'v ingest_state \<Rightarrow> py_error option \<times> 'v ingest_state) \<Rightarrow> string \<Rightarrow> int \<Rightarrow> bool" where
  "uniform step prefix batch_size =
     (\<forall>idx r.
        (\<forall>st. handle_record (step idx r st) = merge_state st (record_effect step idx r)) \<and>
        error_count (record_effect step idx r) \<le> 1 \<and>
        success_count (record_effect step idx r) = length (collection (record_effect step idx r)) \<and>
        (\<not> malformed step idx r \<longrightarrow> collection (record_effect step idx r) \<noteq> []) \<and>
        (collection (record_effect step idx r) = [] \<or>
         (\<exists>e. collection (record_effect step idx r) = [(prefix @ str_nat idx, e)])) \<and>
        count_list (events (record_effect step idx r)) Sleep =
          (if \<not> malformed step idx r \<and> paced batch_size idx then 1 else 0))"

definition digit_val :: "char \<Rightarrow> nat" where
  "digit_val c = of_char c - 48"

definition dec_val :: "string \<Rightarrow> nat" where
  "dec_val s = foldl (\<lambda>acc c. 10 * acc + digit_val c) 0 s"

text \<open>Sample data for the concrete instances.\<close>

definition demo_provider :: "nat embedder" where
  "demo_provider text = Inr (Some (length text))"

definition demo_faq :: "string \<Rightarrow> string \<Rightarrow> json" where
  "demo_faq q a = JObj [(''question'', JStr q), (''answer'', JStr a)]"

definition demo_product :: "string \<Rightarrow> int \<Rightarrow> json" where
  "demo_product name price = JObj [(''productName'', JStr name), (''productPrice'', JInt price)]"

definition demo_faqs :: "json list" where
  "demo_faqs = [demo_faq ''What is your return policy?'' ''30 days.'', JStr ''broken'',
                demo_faq ''Do you ship abroad?'' ''Yes.'']"

definition demo_products :: "json list" where
  "demo_products = [demo_product ''Clear Case'' 12, JStr ''broken'', demo_product ''Wallet Case'' 20]"

definition demo_catalog :: "json list" where
  "demo_catalog = map (\<lambda>i. demo_product (''Case '' @ str_nat i) (int i)) [0..<12]"

definition demo_services :: "json list \<Rightarrow> nat services" where
  "demo_services catalog =
     \<lparr>embed_content = demo_provider,
      nearest = (\<lambda>v es. es),
      products_collection =
        Some (collection (embed_and_store_products demo_provider (Inr (JList catalog)) 10 [])),
      faqs_collection =
        Some (collection (embed_and_store_faqs demo_provider (Inr (JList demo_faqs)) 10 [])),
      gemini_client = Some (\<lambda>prompt. Inl (ExternalError ''quota''))\<rparr>"

definition demo_request :: "string \<Rightarrow> int \<Rightarrow> query_request" where
  "demo_request q k =
     \<lparr>query = q, top_k_products = Some k, top_k_faqs = Some k, user_id = None\<rparr>"

definition demo_services_no_faqs :: "nat services" where
  "demo_services_no_faqs = (demo_services demo_products)\<lparr>faqs_collection := Some []\<rparr>"

section \<open>Properties\<close>

lemma strip_all_space: "list_all is_space s \<Longrightarrow> strip s = []"
  by (auto simp: strip_def list_all_iff dest: set_dropWhileD)

text \<open>
  C6: for every text that is empty or made of whitespace only, \<open>get_embedding\<close> returns
  \<open>None\<close> as a value, whatever the provider would do, and issues no call to the provider.
  Its callers skip on \<open>None\<close>: the ingestion loops store nothing for the record, count
  one error and go on without an exception, and the retrieval functions return no
  results (for a blank query without any call at all).
\<close>

theorem blank_text_no_embedding:
  "(list_all is_space text \<longrightarrow> get_embedding provider text = (Inr None, [])) \<and>
   (create_product_text r = Inr text \<and> fst (get_embedding provider text) = Inr None \<longrightarrow>
      fst (product_step provider bs idx r st) = None \<and>
      collection (snd (product_step provider bs idx r st)) = collection st \<and>
      success_count (snd (product_step provider bs idx r st)) = success_count st \<and>
      error_count (snd (product_step provider bs idx r st)) = error_count st + 1) \<and>
   (create_faq_text r = Inr text \<and> fst (get_embedding provider text) = Inr None \<longrightarrow>
      fst (faq_step provider bs idx r st) = None \<and>
      collection (snd (faq_step provider bs idx r st)) = collection st \<and>
      success_count (snd (faq_step provider bs idx r st)) = success_count st \<and>
      error_count (snd (faq_step provider bs idx r st)) = error_count st + 1) \<and>
   (list_all is_space q \<longrightarrow>
      retrieve_products sv q k = ([], []) \<and> retrieve_faqs sv q k = ([], []))"
proof (intro conjI impI)
  show "get_embedding provider text = (Inr None, [])" if "list_all is_space text"
    using that by (simp add: get_embedding_def strip_all_space)
  assume q: "list_all is_space q"
  have "get_embedding (embed_content sv) q = (Inr None, [])"
    using q by (simp add: get_embedding_def strip_all_space)
  then show "retrieve_products sv q k = ([], [])" "retrieve_faqs sv q k = ([], [])"
    by (simp_all add: retrieve_products_def retrieve_faqs_def split: option.splits)
next
  assume "create_product_text r = Inr text \<and> fst (get_embedding provider text) = Inr None"
  then show "fst (product_step provider bs idx r st) = None"
    "collection (snd (product_step provider bs idx r st)) = collection st"
    "success_count (snd (product_step provider bs idx r st)) = success_count st"
    "error_count (snd (product_step provider bs idx r st)) = error_count st + 1"
    by (auto simp: product_step_def Let_def split: prod.splits)
next
  assume "create_faq_text r = Inr text \<and> fst (get_embedding provider text) = Inr None"
  then show "fst (faq_step provider bs idx r st) = None"
    "collection (snd (faq_step provider bs idx r st)) = collection st"
    "success_count (snd (faq_step provider bs idx r st)) = success_count st"
    "error_count (snd (faq_step provider bs idx r st)) = error_count st + 1"
    by (auto simp: faq_step_def Let_def split: prod.splits)
qed

theorem blank_text_no_embedding_witness:
  "get_embedding (\<lambda>t. Inl (ExternalError ''quota'') :: py_error + nat option) '' \<newline> '' = (Inr None, []) \<and>
   retrieve_products (demo_services demo_products) '' \<newline> '' 3 = ([], []) \<and>
   error_count (snd (faq_step (\<lambda>t. Inr None) 10 0 (demo_faq ''Q'' ''A'')
      (start_state ([] :: nat collection)))) = 1 \<and>
   collection (snd (product_step (\<lambda>t. Inr None) 10 0 (demo_product ''Case'' 5)
      (start_state ([] :: nat collection)))) = []"
proof -
  have s: "list_all is_space '' \<newline> ''"
    by (simp add: is_space_def)
  have t: "create_faq_text (demo_faq ''Q'' ''A'') = Inr ''Q: Q\<newline>A: A''"
    by code_simp
  have e: "fst (get_embedding (\<lambda>t. Inr None :: py_error + nat option) ''Q: Q\<newline>A: A'') = Inr None"
    by (simp add: get_embedding_def)
  obtain pt where pt: "create_product_text (demo_product ''Case'' 5) = Inr pt" "pt \<noteq> []" "strip pt \<noteq> []"
  proof
    show "create_product_text (demo_product ''Case'' 5) =
      Inr ''Product Name: Case\<newline>        Brand: \<newline>        Model: \<newline>        Type: \<newline>        Description: \<newline>        Price: 5\<newline>        Category: ''"
      by code_simp
    show "''Product Name: Case\<newline>        Brand: \<newline>        Model: \<newline>        Type: \<newline>        Description: \<newline>        Price: 5\<newline>        Category: '' \<noteq> []"
      by simp
    show "strip ''Product Name: Case\<newline>        Brand: \<newline>        Model: \<newline>        Type: \<newline>        Description: \<newline>        Price: 5\<newline>        Category: '' \<noteq> []"
      by code_simp
  qed
  have pe: "fst (get_embedding (\<lambda>t. Inr None :: py_error + nat option) pt) = Inr None"
    using pt(2,3) by (simp add: get_embedding_def)
  note a = blank_text_no_embedding [of "'' \<newline> ''"
      "\<lambda>t. Inl (ExternalError ''quota'') :: py_error + nat option"
      "demo_faq ''Q'' ''A''" 10 0 "start_state ([] :: nat collection)"
      "'' \<newline> ''" "demo_services demo_products" 3]
  note b = blank_text_no_embedding [of "''Q: Q\<newline>A: A''"
      "\<lambda>t. Inr None :: py_error + nat option"
      "demo_faq ''Q'' ''A''" 10 0 "start_state ([] :: nat collection)"
      "'' \<newline> ''" "demo_services demo_products" 3]
  note c = blank_text_no_embedding [of pt
      "\<lambda>t. Inr None :: py_error + nat option"
      "demo_product ''Case'' 5" 10 0 "start_state ([] :: nat collection)"
      "'' \<newline> ''" "demo_services demo_products" 3]
  have 1: "get_embedding (\<lambda>t. Inl (ExternalError ''quota'') :: py_error + nat option) '' \<newline> '' =
           (Inr None, [])"
    by (rule a [THEN conjunct1, THEN mp, OF s])
  have 2: "retrieve_products (demo_services demo_products) '' \<newline> '' 3 = ([], [])"
    by (rule a [THEN conjunct2, THEN conjunct2, THEN conjunct2, THEN mp, OF s, THEN conjunct1])
  have "error_count (snd (faq_step (\<lambda>t. Inr None) 10 0 (demo_faq ''Q'' ''A'')
           (start_state ([] :: nat collection)))) =
        error_count (start_state ([] :: nat collection)) + 1"
    using b [THEN conjunct2, THEN conjunct2, THEN conjunct1, THEN mp, OF conjI [OF t e]]
    by (elim conjE)
  then have 3: "error_count (snd (faq_step (\<lambda>t. Inr None) 10 0 (demo_faq ''Q'' ''A'')
           (start_state ([] :: nat collection)))) = 1"
    by (simp add: start_state_def)
  have "collection (snd (product_step (\<lambda>t. Inr None) 10 0 (demo_product ''Case'' 5)
           (start_state ([] :: nat collection)))) = collection (start_state ([] :: nat collection))"
    using c [THEN conjunct2, THEN conjunct1, THEN mp, OF conjI [OF pt(1) pe]]
    by (elim conjE)
  then have 4: "collection (snd (product_step (\<lambda>t. Inr None) 10 0 (demo_product ''Case'' 5)
           (start_state ([] :: nat collection)))) = []"
    by (simp add: start_state_def)
  from 1 2 3 4 show ?thesis by (intro conjI)
qed

subsection \<open>One iteration and the loop\<close>

lemma uniform_product_step: "uniform (product_step provider bs) ''product_'' bs"
  unfolding uniform_def
  apply (intro allI conjI)
  subgoal for idx r st
    by (auto simp: product_step_def record_effect_def handle_record_def merge_state_def start_state_def
        store_all_def collection_add_def get_embedding_def Let_def
        split: sum.splits option.splits prod.splits if_splits)
  subgoal for idx r
    by (auto simp: product_step_def record_effect_def handle_record_def  start_state_def
         get_embedding_def Let_def
        split: sum.splits option.splits prod.splits if_splits)
  subgoal for idx r
    by (auto simp: product_step_def record_effect_def handle_record_def  start_state_def
         collection_add_def get_embedding_def Let_def
        split: sum.splits option.splits prod.splits if_splits)
  subgoal for idx r
    by (auto simp: product_step_def record_effect_def handle_record_def  start_state_def malformed_def
         collection_add_def get_embedding_def Let_def
        split: sum.splits option.splits prod.splits if_splits)
  subgoal for idx r
    by (auto simp: product_step_def record_effect_def handle_record_def  start_state_def malformed_def
         collection_add_def get_embedding_def Let_def
        split: sum.splits option.splits prod.splits if_splits)
  subgoal for idx r
    by (auto simp: product_step_def record_effect_def handle_record_def  start_state_def malformed_def
         collection_add_def get_embedding_def Let_def paced_def
        split: sum.splits option.splits prod.splits if_splits)
  done

lemma uniform_faq_step: "uniform (faq_step provider bs) ''faq_'' bs"
  unfolding uniform_def
  apply (intro allI conjI)
  subgoal for idx r st
    by (auto simp: faq_step_def record_effect_def handle_record_def merge_state_def start_state_def
        store_all_def collection_add_def get_embedding_def Let_def
        split: sum.splits option.splits prod.splits if_splits)
  subgoal for idx r
    by (auto simp: faq_step_def record_effect_def handle_record_def  start_state_def
         get_embedding_def Let_def
        split: sum.splits option.splits prod.splits if_splits)
  subgoal for idx r
    by (auto simp: faq_step_def record_effect_def handle_record_def  start_state_def
         collection_add_def get_embedding_def Let_def
        split: sum.splits option.splits prod.splits if_splits)
  subgoal for idx r
    by (auto simp: faq_step_def record_effect_def handle_record_def  start_state_def malformed_def
         collection_add_def get_embedding_def Let_def
        split: sum.splits option.splits prod.splits if_splits)
  subgoal for idx r
    by (auto simp: faq_step_def record_effect_def handle_record_def  start_state_def malformed_def
         collection_add_def get_embedding_def Let_def
        split: sum.splits option.splits prod.splits if_splits)
  subgoal for idx r
    by (auto simp: faq_step_def record_effect_def handle_record_def  start_state_def malformed_def
         collection_add_def get_embedding_def Let_def paced_def
        split: sum.splits option.splits prod.splits if_splits)
  done

lemma uniformD:
  assumes "uniform step prefix bs"
  shows "(\<forall>st. handle_record (step idx r st) = merge_state st (record_effect step idx r)) \<and>
        error_count (record_effect step idx r) \<le> 1 \<and>
        success_count (record_effect step idx r) = length (collection (record_effect step idx r)) \<and>
        (\<not> malformed step idx r \<longrightarrow> collection (record_effect step idx r) \<noteq> []) \<and>
        (collection (record_effect step idx r) = [] \<or>
         (\<exists>e. collection (record_effect step idx r) = [(prefix @ str_nat idx, e)])) \<and>
        count_list (events (record_effect step idx r)) Sleep =
          (if \<not> malformed step idx r \<and> paced bs idx then 1 else 0)"
  using assms unfolding uniform_def
  by (erule_tac x = idx in allE, erule_tac x = r in allE)

lemma uniform_step:
  "uniform step prefix bs \<Longrightarrow> handle_record (step idx r st) = merge_state st (record_effect step idx r)"
  using uniformD [of step prefix bs idx r] by simp

lemma uniform_error:
  "uniform step prefix bs \<Longrightarrow>
   error_count (record_effect step idx r) = (if malformed step idx r then 1 else 0)"
  using uniformD [of step prefix bs idx r] by (auto simp: malformed_def)

lemma uniform_success_le:
  "uniform step prefix bs \<Longrightarrow> success_count (record_effect step idx r) \<le> 1"
  using uniformD [of step prefix bs idx r] by auto

lemma uniform_success_ok:
  "uniform step prefix bs \<Longrightarrow> \<not> malformed step idx r \<Longrightarrow> success_count (record_effect step idx r) = 1"
  using uniformD [of step prefix bs idx r] by auto

lemma uniform_keys:
  "uniform step prefix bs \<Longrightarrow> fst ` set (collection (record_effect step idx r)) \<subseteq> {prefix @ str_nat idx}"
  using uniformD [of step prefix bs idx r] by auto

lemma uniform_key_ok:
  "uniform step prefix bs \<Longrightarrow> \<not> malformed step idx r \<Longrightarrow>
   prefix @ str_nat idx \<in> fst ` set (collection (record_effect step idx r))"
  using uniformD [of step prefix bs idx r] by auto

lemma uniform_distinct:
  "uniform step prefix bs \<Longrightarrow> distinct (map fst (collection (record_effect step idx r)))"
  using uniformD [of step prefix bs idx r] by auto

lemma uniform_sleep:
  "uniform step prefix bs \<Longrightarrow>
   count_list (events (record_effect step idx r)) Sleep =
     (if \<not> malformed step idx r \<and> paced bs idx then 1 else 0)"
  using uniformD [of step prefix bs idx r] by simp

lemma store_all_append: "store_all (xs @ ys) c = store_all ys (store_all xs c)"
  by (simp add: store_all_def)

lemma loop_collection:
  assumes "uniform step prefix bs"
  shows "collection (ingest_loop step idx rs st) = store_all (stored_entries step idx rs) (collection st)"
proof (induction rs arbitrary: idx st)
  case Nil
  show ?case by (simp add: store_all_def)
next
  case (Cons r rs)
  show ?case
    by (simp add: Cons.IH uniform_step [OF assms] merge_state_def store_all_append)
qed

lemma loop_error_count:
  assumes "uniform step prefix bs"
  shows "error_count (ingest_loop step idx rs st) =
         error_count st + length (filter (\<lambda>ir. malformed step (fst ir) (snd ir)) (List.enumerate idx rs))"
proof (induction rs arbitrary: idx st)
  case Nil
  show ?case by simp
next
  case (Cons r rs)
  show ?case
    by (simp add: Cons.IH uniform_step [OF assms] merge_state_def uniform_error [OF assms])
qed

lemma loop_success_lower:
  assumes "uniform step prefix bs"
  shows "success_count st + length (filter (\<lambda>ir. \<not> malformed step (fst ir) (snd ir)) (List.enumerate idx rs))
         \<le> success_count (ingest_loop step idx rs st)"
proof (induction rs arbitrary: idx st)
  case Nil
  show ?case by simp
next
  case (Cons r rs)
  have "success_count (merge_state st (record_effect step idx r)) +
        length (filter (\<lambda>ir. \<not> malformed step (fst ir) (snd ir)) (List.enumerate (Suc idx) rs))
        \<le> success_count (ingest_loop step (Suc idx) rs (merge_state st (record_effect step idx r)))"
    by (rule Cons.IH)
  then show ?case
    using uniform_success_ok [OF assms, of idx r]
    by (auto simp: uniform_step [OF assms] merge_state_def)
qed

lemma loop_success_upper:
  assumes "uniform step prefix bs"
  shows "success_count (ingest_loop step idx rs st) \<le> success_count st + length rs"
proof (induction rs arbitrary: idx st)
  case Nil
  show ?case by simp
next
  case (Cons r rs)
  have "success_count (ingest_loop step (Suc idx) rs (merge_state st (record_effect step idx r)))
        \<le> success_count (merge_state st (record_effect step idx r)) + length rs"
    by (rule Cons.IH)
  then show ?case
    using uniform_success_le [OF assms, of idx r]
    by (auto simp: uniform_step [OF assms] merge_state_def)
qed

lemma loop_success_count:
  assumes "uniform step prefix bs"
  shows "success_count (ingest_loop step idx rs st) =
         success_count st + length (stored_entries step idx rs)"
proof (induction rs arbitrary: idx st)
  case Nil
  show ?case by simp
next
  case (Cons r rs)
  have "success_count (record_effect step idx r) = length (collection (record_effect step idx r))"
    using assms by (simp add: uniform_def)
  then show ?case
    by (simp add: Cons.IH uniform_step [OF assms] merge_state_def)
qed

lemma loop_sleeps:
  assumes "uniform step prefix bs"
  shows "count_list (events (ingest_loop step idx rs st)) Sleep =
         count_list (events st) Sleep +
         length (filter (\<lambda>ir. \<not> malformed step (fst ir) (snd ir) \<and> paced bs (fst ir)) (List.enumerate idx rs))"
proof (induction rs arbitrary: idx st)
  case Nil
  show ?case by simp
next
  case (Cons r rs)
  show ?case
    by (simp add: Cons.IH uniform_step [OF assms] merge_state_def uniform_sleep [OF assms])
qed

lemma digit_val_char: "d < 10 \<Longrightarrow> digit_val (digit_char d) = d"
  by (simp add: digit_val_def digit_char_def)

lemma dec_val_str_nat: "dec_val (str_nat n) = n"
proof (induction n rule: str_nat.induct)
  case (1 n)
  show ?case
  proof (cases "n < 10")
    case True
    then show ?thesis by (simp add: str_nat.simps [of n] dec_val_def digit_val_char)
  next
    case False
    with 1 have "dec_val (str_nat (n div 10)) = n div 10" by simp
    with False show ?thesis
      by (simp add: str_nat.simps [of n] dec_val_def digit_val_char)
  qed
qed

lemma str_nat_inj: "str_nat m = str_nat n \<Longrightarrow> m = n"
  by (metis dec_val_str_nat)

lemma store_all_Cons: "store_all (u # ups) c = store_all ups (AList.update (fst u) (snd u) c)"
  by (simp add: store_all_def)

lemma map_of_store_all_notin:
  "k \<notin> fst ` set ups \<Longrightarrow> map_of (store_all ups c) k = map_of c k"
  by (induction ups arbitrary: c) (auto simp: store_all_def update_conv')

lemma map_of_store_all_in:
  "distinct (map fst ups) \<Longrightarrow> (k, v) \<in> set ups \<Longrightarrow> map_of (store_all ups c) k = Some v"
proof (induction ups arbitrary: c)
  case Nil
  then show ?case by simp
next
  case (Cons u ups)
  show ?case
  proof (cases "(k, v) = u")
    case True
    with Cons.prems have "k \<notin> fst ` set ups" by force
    then have "map_of (store_all ups (AList.update (fst u) (snd u) c)) k =
               map_of (AList.update (fst u) (snd u) c) k"
      by (rule map_of_store_all_notin)
    also have "\<dots> = Some v"
      using True by (auto simp: update_conv')
    finally show ?thesis by (simp add: store_all_Cons)
  next
    case False
    with Cons.prems have "distinct (map fst ups)" "(k, v) \<in> set ups" by auto
    then show ?thesis by (simp add: store_all_Cons Cons.IH)
  qed
qed

lemma store_all_triv:
  "\<forall>kv\<in>set ups. map_of t (fst kv) = Some (snd kv) \<Longrightarrow> store_all ups t = t"
  by (induction ups) (simp_all add: store_all_def update_triv)

lemma store_all_idem:
  assumes "distinct (map fst ups)"
  shows "store_all ups (store_all ups c) = store_all ups c"
proof (rule store_all_triv, rule ballI)
  fix kv assume "kv \<in> set ups"
  then have "(fst kv, snd kv) \<in> set ups" by simp
  with assms show "map_of (store_all ups c) (fst kv) = Some (snd kv)"
    by (rule map_of_store_all_in)
qed

lemma keys_store_all: "fst ` set (store_all ups c) = fst ` set ups \<union> fst ` set c"
  by (induction ups arbitrary: c) (auto simp: store_all_def dom_update)

lemma stored_keys:
  assumes "uniform step prefix bs"
  shows "k \<in> fst ` set (stored_entries step idx rs) \<Longrightarrow> \<exists>i\<ge>idx. k = prefix @ str_nat i"
proof (induction rs arbitrary: idx)
  case Nil
  then show ?case by simp
next
  case (Cons r rs)
  from Cons.prems consider
      "k \<in> fst ` set (collection (record_effect step idx r))"
    | "k \<in> fst ` set (stored_entries step (Suc idx) rs)"
    by auto
  then show ?case
  proof cases
    case 1
    with uniform_keys [OF assms, of idx r] have "k = prefix @ str_nat idx" by auto
    then show ?thesis by auto
  next
    case 2
    then obtain i where "Suc idx \<le> i" "k = prefix @ str_nat i"
      using Cons.IH by blast
    then show ?thesis by (auto intro: exI [of _ i])
  qed
qed

lemma stored_distinct:
  assumes "uniform step prefix bs"
  shows "distinct (map fst (stored_entries step idx rs))"
proof (induction rs arbitrary: idx)
  case Nil
  show ?case by simp
next
  case (Cons r rs)
  have "fst ` set (collection (record_effect step idx r)) \<inter>
        fst ` set (stored_entries step (Suc idx) rs) = {}"
  proof (rule ccontr)
    assume "\<not> ?thesis"
    then obtain k where k1: "k \<in> fst ` set (collection (record_effect step idx r))"
      and k2: "k \<in> fst ` set (stored_entries step (Suc idx) rs)" by blast
    from k1 uniform_keys [OF assms, of idx r] have "k = prefix @ str_nat idx" by auto
    moreover from k2 obtain i where "Suc idx \<le> i" "k = prefix @ str_nat i"
      using stored_keys [OF assms] by blast
    ultimately show False using str_nat_inj [of idx i] by auto
  qed
  then show ?case
    using Cons.IH [of "Suc idx"] uniform_distinct [OF assms, of idx r] by simp
qed

lemma stored_key_ok:
  assumes "uniform step prefix bs"
  shows "i < length rs \<Longrightarrow> \<not> malformed step (idx + i) (rs ! i) \<Longrightarrow>
         prefix @ str_nat (idx + i) \<in> fst ` set (stored_entries step idx rs)"
proof (induction rs arbitrary: idx i)
  case Nil
  then show ?case by simp
next
  case (Cons r rs)
  show ?case
  proof (cases i)
    case 0
    with Cons.prems uniform_key_ok [OF assms, of idx r] show ?thesis by auto
  next
    case (Suc j)
    with Cons.prems have "prefix @ str_nat (Suc idx + j) \<in> fst ` set (stored_entries step (Suc idx) rs)"
      by (intro Cons.IH) auto
    with Suc show ?thesis by auto
  qed
qed

lemma count_enumerate:
  "length (filter Q (List.enumerate n xs)) = card {i. i < length xs \<and> Q (n + i, xs ! i)}"
proof -
  have "{i. i < length (List.enumerate n xs) \<and> Q (List.enumerate n xs ! i)} =
        {i. i < length xs \<and> Q (n + i, xs ! i)}"
    by (auto simp: nth_enumerate_eq)
  then show ?thesis by (simp add: length_filter_conv_card)
qed

lemma count_single:
  assumes "k < length xs" "Q (k, xs ! k)" "\<forall>i<length xs. i \<noteq> k \<longrightarrow> \<not> Q (i, xs ! i)"
  shows "length (filter Q (List.enumerate 0 xs)) = 1"
    and "length (filter (\<lambda>x. \<not> Q x) (List.enumerate 0 xs)) = length xs - 1"
proof -
  have "{i. i < length xs \<and> Q (0 + i, xs ! i)} = {k}"
    using assms by auto
  then show one: "length (filter Q (List.enumerate 0 xs)) = 1"
    by (simp only: count_enumerate) simp
  have "length (filter Q (List.enumerate 0 xs)) +
        length (filter (\<lambda>x. \<not> Q x) (List.enumerate 0 xs)) = length (List.enumerate 0 xs)"
    by (rule sum_length_filter_compl)
  with one show "length (filter (\<lambda>x. \<not> Q x) (List.enumerate 0 xs)) = length xs - 1"
    by simp
qed

lemma loop_reingest:
  assumes "uniform step prefix bs"
  shows "collection (ingest_loop step 0 rs (start_state (collection (ingest_loop step 0 rs (start_state c))))) =
         collection (ingest_loop step 0 rs (start_state c))"
  by (simp add: loop_collection [OF assms] start_state_def store_all_idem stored_distinct [OF assms])

lemma loop_one_malformed:
  assumes u: "uniform step prefix bs"
    and k: "k < length rs" "malformed step k (rs ! k)"
    and others: "\<forall>i<length rs. i \<noteq> k \<longrightarrow> \<not> malformed step i (rs ! i)"
  shows "length rs - 1 \<le> success_count (ingest_loop step 0 rs (start_state c)) \<and>
         success_count (ingest_loop step 0 rs (start_state c)) \<le> length rs \<and>
         error_count (ingest_loop step 0 rs (start_state c)) = 1 \<and>
         (\<forall>i<length rs. i \<noteq> k \<longrightarrow>
            prefix @ str_nat i \<in> fst ` set (collection (ingest_loop step 0 rs (start_state c))))"
proof (intro conjI allI impI)
  let ?Q = "\<lambda>ir. malformed step (fst ir) (snd ir)"
  have q: "?Q (k, rs ! k)" "\<forall>i<length rs. i \<noteq> k \<longrightarrow> \<not> ?Q (i, rs ! i)"
    using k others by auto
  show "length rs - 1 \<le> success_count (ingest_loop step 0 rs (start_state c))"
    using loop_success_lower [OF u, of "start_state c" 0 rs] count_single(2) [of k rs ?Q, OF k(1) q]
    by simp
  show "success_count (ingest_loop step 0 rs (start_state c)) \<le> length rs"
    using loop_success_upper [OF u, of 0 rs "start_state c"] by (simp add: start_state_def)
  show "error_count (ingest_loop step 0 rs (start_state c)) = 1"
    using count_single(1) [of k rs ?Q, OF k(1) q]
    by (simp add: loop_error_count [OF u] start_state_def)
  fix i assume "i < length rs" "i \<noteq> k"
  with others have "\<not> malformed step (0 + i) (rs ! i)" by simp
  with \<open>i < length rs\<close> have "prefix @ str_nat (0 + i) \<in> fst ` set (stored_entries step 0 rs)"
    by (rule stored_key_ok [OF u])
  then show "prefix @ str_nat i \<in> fst ` set (collection (ingest_loop step 0 rs (start_state c)))"
    by (simp add: loop_collection [OF u] keys_store_all)
qed

subsection \<open>Ingestion\<close>

lemma start_state_fields:
  "collection (start_state c) = c" "success_count (start_state c) = 0"
  "error_count (start_state c) = 0" "events (start_state c) = []"
  by (simp_all add: start_state_def)

lemma embed_products_list:
  "embed_and_store_products provider (Inr (JList rs)) bs c =
   ingest_loop (product_step provider bs) 0 rs (start_state c)"
  by (simp add: embed_and_store_products_def bind_err_def)

lemma embed_faqs_list:
  "embed_and_store_faqs provider (Inr (JList rs)) bs c =
   ingest_loop (faq_step provider bs) 0 rs (start_state c)"
  by (simp add: embed_and_store_faqs_def bind_err_def)

text \<open>
  C1: running \<open>embed_and_store_products\<close> (or \<open>embed_and_store_faqs\<close>) a second time over
  the same loaded data, on the collection the first run left, gives back that very
  collection: the same entries under the same ids, hence the same count. Every record
  that was stored in the first run is stored again in the second, over its old entry.
  The ids \<open>product_<idx>\<close> and \<open>faq_<idx>\<close> depend on the position only, and the store
  keeps one entry per id.
\<close>

theorem reingest_idempotent:
  "collection (embed_and_store_products provider loaded bs
      (collection (embed_and_store_products provider loaded bs c))) =
   collection (embed_and_store_products provider loaded bs c) \<and>
   success_count (embed_and_store_products provider loaded bs
      (collection (embed_and_store_products provider loaded bs c))) =
   success_count (embed_and_store_products provider loaded bs c) \<and>
   collection (embed_and_store_faqs provider loaded bs
      (collection (embed_and_store_faqs provider loaded bs c))) =
   collection (embed_and_store_faqs provider loaded bs c) \<and>
   success_count (embed_and_store_faqs provider loaded bs
      (collection (embed_and_store_faqs provider loaded bs c))) =
   success_count (embed_and_store_faqs provider loaded bs c)"
proof (cases "bind_err loaded py_items")
  case (Inl e)
  then show ?thesis
    by (simp add: embed_and_store_products_def embed_and_store_faqs_def start_state_def)
next
  case (Inr rs)
  then show ?thesis
    by (simp add: embed_and_store_products_def embed_and_store_faqs_def
        loop_reingest [OF uniform_product_step] loop_reingest [OF uniform_faq_step]
        loop_success_count [OF uniform_product_step] loop_success_count [OF uniform_faq_step]
        start_state_fields)
qed

theorem reingest_idempotent_witness:
  "collection (embed_and_store_faqs demo_provider (Inr (JList demo_faqs)) 10
      (collection (embed_and_store_faqs demo_provider (Inr (JList demo_faqs)) 10 []))) =
   collection (embed_and_store_faqs demo_provider (Inr (JList demo_faqs)) 10 []) \<and>
   length (collection (embed_and_store_faqs demo_provider (Inr (JList demo_faqs)) 10 [])) = 2"
proof -
  have "length (collection (embed_and_store_faqs demo_provider (Inr (JList demo_faqs)) 10 [])) = 2"
    by code_simp
  then show ?thesis
    using reingest_idempotent [of demo_provider "Inr (JList demo_faqs)" 10 "[]"] by simp
qed

lemma less_3_cases: "i < (3::nat) \<Longrightarrow> i = 0 \<or> i = 1 \<or> i = 2"
  by arith

text \<open>
  C4: when exactly one record, at position \<open>k\<close>, is malformed (its iteration raises or
  gets no embedding) and the loaded data is a list of \<open>N\<close> records, the run goes through
  the whole list: it ends with at least \<open>N - 1\<close> (and at most \<open>N\<close>) successes and an
  error count of exactly one, and every other record has its entry in the collection.
\<close>

theorem one_malformed_record_isolated:
  "(k < length rs \<and> malformed (product_step provider bs) k (rs ! k) \<and>
    (\<forall>i<length rs. i \<noteq> k \<longrightarrow> \<not> malformed (product_step provider bs) i (rs ! i)) \<longrightarrow>
      length rs - 1 \<le> success_count (embed_and_store_products provider (Inr (JList rs)) bs c) \<and>
      success_count (embed_and_store_products provider (Inr (JList rs)) bs c) \<le> length rs \<and>
      error_count (embed_and_store_products provider (Inr (JList rs)) bs c) = 1 \<and>
      (\<forall>i<length rs. i \<noteq> k \<longrightarrow> ''product_'' @ str_nat i \<in>
          fst ` set (collection (embed_and_store_products provider (Inr (JList rs)) bs c)))) \<and>
   (k < length rs \<and> malformed (faq_step provider bs) k (rs ! k) \<and>
    (\<forall>i<length rs. i \<noteq> k \<longrightarrow> \<not> malformed (faq_step provider bs) i (rs ! i)) \<longrightarrow>
      length rs - 1 \<le> success_count (embed_and_store_faqs provider (Inr (JList rs)) bs c) \<and>
      success_count (embed_and_store_faqs provider (Inr (JList rs)) bs c) \<le> length rs \<and>
      error_count (embed_and_store_faqs provider (Inr (JList rs)) bs c) = 1 \<and>
      (\<forall>i<length rs. i \<noteq> k \<longrightarrow> ''faq_'' @ str_nat i \<in>
          fst ` set (collection (embed_and_store_faqs provider (Inr (JList rs)) bs c))))"
  unfolding embed_products_list embed_faqs_list
  using loop_one_malformed [OF uniform_product_step, of k rs provider bs c]
        loop_one_malformed [OF uniform_faq_step, of k rs provider bs c]
  by blast

theorem one_malformed_record_isolated_witness:
  "error_count (embed_and_store_products demo_provider (Inr (JList demo_products)) 10 []) = 1 \<and>
   2 \<le> success_count (embed_and_store_products demo_provider (Inr (JList demo_products)) 10 []) \<and>
   error_count (embed_and_store_faqs demo_provider (Inr (JList demo_faqs)) 10 []) = 1 \<and>
   2 \<le> success_count (embed_and_store_faqs demo_provider (Inr (JList demo_faqs)) 10 [])"
proof -
  have lp: "length demo_products = 3" and lf: "length demo_faqs = 3"
    by (simp_all add: demo_products_def demo_faqs_def)
  have p1: "malformed (product_step demo_provider 10) 1 (demo_products ! 1)" by code_simp
  have p0: "\<not> malformed (product_step demo_provider 10) 0 (demo_products ! 0)" by code_simp
  have p2: "\<not> malformed (product_step demo_provider 10) 2 (demo_products ! 2)" by code_simp
  have f1: "malformed (faq_step demo_provider 10) 1 (demo_faqs ! 1)" by code_simp
  have f0: "\<not> malformed (faq_step demo_provider 10) 0 (demo_faqs ! 0)" by code_simp
  have f2: "\<not> malformed (faq_step demo_provider 10) 2 (demo_faqs ! 2)" by code_simp
  have ps: "\<forall>i<length demo_products. i \<noteq> 1 \<longrightarrow> \<not> malformed (product_step demo_provider 10) i (demo_products ! i)"
    using p0 p2 less_3_cases by (auto simp: lp)
  have fs: "\<forall>i<length demo_faqs. i \<noteq> 1 \<longrightarrow> \<not> malformed (faq_step demo_provider 10) i (demo_faqs ! i)"
    using f0 f2 less_3_cases by (auto simp: lf)
  show ?thesis
    using one_malformed_record_isolated [of 1 demo_products demo_provider 10 "[]"]
          one_malformed_record_isolated [of 1 demo_faqs demo_provider 10 "[]"]
          p1 ps f1 fs
    by (simp add: lp lf)
qed

text \<open>
  C5, as stated, fails: with \<open>batch_size = 2\<close> and the three sample FAQs, of which the
  middle one is malformed, two records are embedded and stored and the loop never
  pauses. The check reads the position \<open>idx + 1\<close>, not the number of successes.
\<close>

theorem pause_by_success_count_counterexample:
  "success_count (embed_and_store_faqs demo_provider (Inr (JList demo_faqs)) 2 []) = 2 \<and>
   count_list (events (embed_and_store_faqs demo_provider (Inr (JList demo_faqs)) 2 [])) Sleep = 0"
  by code_simp

text \<open>
  C5, amended: the pause follows the iteration at position \<open>idx\<close> exactly when that
  record went through without error and \<open>batch_size\<close> divides \<open>idx + 1\<close>, the position
  counting every record of the input, skipped and failed ones included. So the number
  of pauses of a run is the number of such positions.
\<close>

theorem pause_by_position:
  "count_list (events (embed_and_store_products provider (Inr (JList rs)) bs c)) Sleep =
     length (filter (\<lambda>ir. \<not> malformed (product_step provider bs) (fst ir) (snd ir) \<and>
                           (int (fst ir) + 1) mod bs = 0) (List.enumerate 0 rs)) \<and>
   count_list (events (embed_and_store_faqs provider (Inr (JList rs)) bs c)) Sleep =
     length (filter (\<lambda>ir. \<not> malformed (faq_step provider bs) (fst ir) (snd ir) \<and>
                           (int (fst ir) + 1) mod bs = 0) (List.enumerate 0 rs)) \<and>
   (Sleep \<in> set (events (record_effect (product_step provider bs) idx r)) \<longleftrightarrow>
      \<not> malformed (product_step provider bs) idx r \<and> (int idx + 1) mod bs = 0) \<and>
   (Sleep \<in> set (events (record_effect (faq_step provider bs) idx r)) \<longleftrightarrow>
      \<not> malformed (faq_step provider bs) idx r \<and> (int idx + 1) mod bs = 0)"
proof (intro conjI)
  show "count_list (events (embed_and_store_products provider (Inr (JList rs)) bs c)) Sleep =
     length (filter (\<lambda>ir. \<not> malformed (product_step provider bs) (fst ir) (snd ir) \<and>
                           (int (fst ir) + 1) mod bs = 0) (List.enumerate 0 rs))"
    by (simp add: embed_products_list loop_sleeps [OF uniform_product_step] start_state_def paced_def)
  show "count_list (events (embed_and_store_faqs provider (Inr (JList rs)) bs c)) Sleep =
     length (filter (\<lambda>ir. \<not> malformed (faq_step provider bs) (fst ir) (snd ir) \<and>
                           (int (fst ir) + 1) mod bs = 0) (List.enumerate 0 rs))"
    by (simp add: embed_faqs_list loop_sleeps [OF uniform_faq_step] start_state_def paced_def)
  show "Sleep \<in> set (events (record_effect (product_step provider bs) idx r)) \<longleftrightarrow>
      \<not> malformed (product_step provider bs) idx r \<and> (int idx + 1) mod bs = 0"
    using uniform_sleep [OF uniform_product_step, of provider bs idx r]
          count_list_0_iff [of "events (record_effect (product_step provider bs) idx r)" Sleep]
    by (auto simp: paced_def split: if_splits)
  show "Sleep \<in> set (events (record_effect (faq_step provider bs) idx r)) \<longleftrightarrow>
      \<not> malformed (faq_step provider bs) idx r \<and> (int idx + 1) mod bs = 0"
    using uniform_sleep [OF uniform_faq_step, of provider bs idx r]
          count_list_0_iff [of "events (record_effect (faq_step provider bs) idx r)" Sleep]
    by (auto simp: paced_def split: if_splits)
qed

theorem pause_by_position_witness:
  "count_list (events (embed_and_store_faqs demo_provider
      (Inr (JList (demo_faqs @ [demo_faq ''Q'' ''A'']))) 2 [])) Sleep = 1"
proof -
  have "length (filter (\<lambda>ir. \<not> malformed (faq_step demo_provider 2) (fst ir) (snd ir) \<and>
                           (int (fst ir) + 1) mod 2 = 0)
           (List.enumerate 0 (demo_faqs @ [demo_faq ''Q'' ''A'']))) = 1"
    by code_simp
  then show ?thesis
    using pause_by_position [of demo_provider "demo_faqs @ [demo_faq ''Q'' ''A'']" 2 "[]"]
    by simp
qed

subsection \<open>Text of a record\<close>

lemma strs_of_ok: "list_all is_JStr xs \<Longrightarrow> \<exists>ss. strs_of xs = Inr ss"
  by (induction xs rule: strs_of.induct) (auto simp: bind_err_def)

lemma strs_of_bad: "\<not> list_all is_JStr xs \<Longrightarrow> strs_of xs = Inl TypeError"
  by (induction xs rule: strs_of.induct) (auto simp: bind_err_def split: sum.splits)

text \<open>
  Where the text of a record can fail. On a JSON object \<open>create_faq_text\<close> always
  returns a string, and \<open>create_product_text\<close> raises exactly when \<open>coverType\<close> is a
  list with an item that is not a string. Missing fields default to the empty string:
  the empty object gives the bare templates.
\<close>

lemma product_text_raises_iff:
  "(\<exists>s. create_faq_text (JObj kvs) = Inr s) \<and>
   (isl (create_product_text (JObj kvs)) \<longleftrightarrow>
      (\<exists>xs. map_of kvs ''coverType'' = Some (JList xs) \<and> \<not> list_all is_JStr xs)) \<and>
   create_faq_text (JObj []) = Inr ''Q: \<newline>A: '' \<and>
   create_product_text (JObj []) =
     Inr ''Product Name: \<newline>        Brand: \<newline>        Model: \<newline>        Type: \<newline>        Description: \<newline>        Price: \<newline>        Category: ''"
proof (intro conjI)
  show "\<exists>s. create_faq_text (JObj kvs) = Inr s"
    by (simp add: create_faq_text_def bind_err_def)
  show "isl (create_product_text (JObj kvs)) \<longleftrightarrow>
      (\<exists>xs. map_of kvs ''coverType'' = Some (JList xs) \<and> \<not> list_all is_JStr xs)"
  proof (cases "map_of kvs ''coverType''")
    case None
    then show ?thesis
      by (simp add: create_product_text_def bind_err_def str_join_def)
  next
    case (Some v)
    show ?thesis
    proof (cases v)
      case (JList xs)
      show ?thesis
      proof (cases "list_all is_JStr xs")
        case True
        then obtain ss where "strs_of xs = Inr ss" using strs_of_ok by blast
        with Some JList True show ?thesis
          by (simp add: create_product_text_def bind_err_def str_join_def)
      next
        case False
        then have "strs_of xs = Inl TypeError" by (rule strs_of_bad)
        with Some JList False show ?thesis
          by (simp add: create_product_text_def bind_err_def str_join_def)
      qed
    qed (use Some in \<open>simp_all add: create_product_text_def bind_err_def\<close>)
  qed
  show "create_faq_text (JObj []) = Inr ''Q: \<newline>A: ''"
    by (simp add: create_faq_text_def bind_err_def py_str_def)
  show "create_product_text (JObj []) =
     Inr ''Product Name: \<newline>        Brand: \<newline>        Model: \<newline>        Type: \<newline>        Description: \<newline>        Price: \<newline>        Category: ''"
    by (simp add: create_product_text_def bind_err_def py_str_def str_join_def)
qed

text \<open>
  C7: the claim does not hold of the code. A product with a non-empty name whose
  \<open>coverType\<close> list holds a number makes \<open>create_product_text\<close> raise \<open>TypeError\<close>,
  since \<open>', '.join\<close> accepts strings only. The same number given directly, not in a
  list, goes through \<open>str\<close> and yields a text, as every other field does.
\<close>

theorem product_text_type_error:
  "create_product_text (JObj [(''productName'', JStr ''Case''), (''coverType'', JList [JInt 1])]) =
     Inl TypeError \<and>
   create_product_text (JObj [(''productName'', JStr ''Case''), (''coverType'', JInt 1)]) =
     Inr ''Product Name: Case\<newline>        Brand: \<newline>        Model: \<newline>        Type: 1\<newline>        Description: \<newline>        Price: \<newline>        Category: '' \<and>
   create_product_text (JObj [(''productName'', JInt 7), (''coverType'', JList [])]) =
     Inr ''Product Name: 7\<newline>        Brand: \<newline>        Model: \<newline>        Type: \<newline>        Description: \<newline>        Price: \<newline>        Category: ''"
  by code_simp

subsection \<open>The query handler\<close>

lemma strip_strip: "strip (strip s) = strip s"
proof -
  let ?t = "dropWhile is_space s"
  let ?u = "rev (dropWhile is_space (rev ?t))"
  have t: "?t = ?u @ rev (takeWhile is_space (rev ?t))"
    by (metis rev_append rev_rev_ident takeWhile_dropWhile_id)
  have "?u = [] \<or> \<not> is_space (hd ?u)"
  proof (cases "?u = []")
    case False
    then have "hd ?u = hd ?t" using t by (metis hd_append2)
    moreover have "?t \<noteq> []" using False t by (metis Nil_is_append_conv)
    ultimately show ?thesis by (metis hd_dropWhile)
  qed simp
  then have "dropWhile is_space ?u = ?u"
    by (simp only: dropWhile_eq_self_iff)
  then show ?thesis
    by (simp add: strip_def)
qed

lemma get_embedding_events:
  "text \<noteq> [] \<Longrightarrow> strip text \<noteq> [] \<Longrightarrow>
   get_embedding provider text = (provider text, [EmbedContent text])"
  by (simp add: get_embedding_def)

lemma retrieve_products_length: "length (fst (retrieve_products sv q top_k)) \<le> 10"
proof -
  have "length (filter P (collection_query nr c v (min top_k 10))) \<le> 10" for P nr c and v :: 'a
    by (rule order_trans [OF length_filter_le]) (simp add: collection_query_def)
  then show ?thesis
    by (simp add: retrieve_products_def Let_def split: option.splits prod.splits sum.splits)
qed

lemma retrieve_faqs_length: "length (fst (retrieve_faqs sv q top_k)) \<le> 5"
proof -
  have "length (filter P (collection_query nr c v (min top_k 5))) \<le> 5" for P nr c and v :: 'a
    by (rule order_trans [OF length_filter_le]) (simp add: collection_query_def)
  then show ?thesis
    by (simp add: retrieve_faqs_def Let_def split: option.splits prod.splits sum.splits)
qed

text \<open>An accepted request: what the handler returns and which calls it issues.\<close>

lemma query_chatbot_accepted:
  assumes "strip (query request) \<noteq> []" "length (strip (query request)) \<le> 500"
    and "products_collection sv \<noteq> None" "faqs_collection sv \<noteq> None" "gemini_client sv \<noteq> None"
    and "top_k_products request = Some kp" "top_k_faqs request = Some kf"
  shows "query_chatbot sv request =
     (let q = strip (query request);
          rp = retrieve_products sv q (min kp 10);
          rf = retrieve_faqs sv q (min kf 5);
          g = generate_response_with_gemini sv q (fst rp) (fst rf)
      in (Inr \<lparr>response_query = q, responseText = fst g, products = fst rp, faqs = fst rf,
               hasResults = (0 < length (fst rp) \<or> 0 < length (fst rf)),
               conversationContext =
                 Some (''Found '' @ str_nat (length (fst rp)) @ '' products and '' @
                       str_nat (length (fst rf)) @ '' FAQs'')\<rparr>,
          snd rp @ snd rf @ snd g))"
  using assms by (simp add: query_chatbot_def Let_def split: prod.splits)

lemma retrieve_products_events:
  assumes "q \<noteq> []" "strip q \<noteq> []" "products_collection sv \<noteq> None"
  shows "snd (retrieve_products sv q k) =
     (case embed_content sv q of
        Inr (Some v) \<Rightarrow> [EmbedContent q, CollectionQuery ''products'' v (min k 10)]
      | _ \<Rightarrow> [EmbedContent q])"
  using assms
  by (auto simp: retrieve_products_def get_embedding_events Let_def split: option.splits sum.splits)

lemma retrieve_faqs_events:
  assumes "q \<noteq> []" "strip q \<noteq> []" "faqs_collection sv \<noteq> None"
  shows "snd (retrieve_faqs sv q k) =
     (case embed_content sv q of
        Inr (Some v) \<Rightarrow> [EmbedContent q, CollectionQuery ''faqs'' v (min k 5)]
      | _ \<Rightarrow> [EmbedContent q])"
  using assms
  by (auto simp: retrieve_faqs_def get_embedding_events Let_def split: option.splits sum.splits)

lemma generate_events:
  "gemini_client sv \<noteq> None \<Longrightarrow>
   snd (generate_response_with_gemini sv q ps fs) = [GenerateContent (build_prompt q ps fs)]"
  by (auto simp: generate_response_with_gemini_def Let_def)

lemma fallback_nonempty: "fallback_response m n \<noteq> []"
  by (simp add: fallback_response_def)

text \<open>
  C2, as stated, fails: on an accepted request the provider is called twice with the
  query text, not once.
\<close>

theorem embedded_once_counterexample:
  "count_list (snd (query_chatbot (demo_services demo_products) (demo_request ''return policy'' 3)))
     (EmbedContent ''return policy'') = 2"
  by code_simp

text \<open>
  C2, amended: for every accepted request (stripped query non-empty and at most 500
  characters, both collections and the generative client present, both \<open>top_k\<close> values
  given) the stripped query text is sent to the embedding provider twice, once by
  \<open>retrieve_products\<close> and once by \<open>retrieve_faqs\<close>; when the provider answers that text
  with a vector, the nearest-neighbour query on each collection is made with it.
\<close>

theorem embedded_per_collection:
  "strip (query request) \<noteq> [] \<and> length (strip (query request)) \<le> 500 \<and>
   products_collection sv \<noteq> None \<and> faqs_collection sv \<noteq> None \<and> gemini_client sv \<noteq> None \<and>
   top_k_products request = Some kp \<and> top_k_faqs request = Some kf \<longrightarrow>
     filter is_EmbedContent (snd (query_chatbot sv request)) =
       [EmbedContent (strip (query request)), EmbedContent (strip (query request))] \<and>
     filter is_EmbedContent (snd (retrieve_products sv (strip (query request)) (min kp 10))) =
       [EmbedContent (strip (query request))] \<and>
     filter is_EmbedContent (snd (retrieve_faqs sv (strip (query request)) (min kf 5))) =
       [EmbedContent (strip (query request))] \<and>
     (embed_content sv (strip (query request)) = Inr (Some v) \<longrightarrow>
        filter is_CollectionQuery (snd (query_chatbot sv request)) =
          [CollectionQuery ''products'' v (min (min kp 10) 10),
           CollectionQuery ''faqs'' v (min (min kf 5) 5)])"
proof (intro impI, elim conjE)
  let ?q = "strip (query request)"
  assume a: "?q \<noteq> []" "length ?q \<le> 500" "products_collection sv \<noteq> None"
    "faqs_collection sv \<noteq> None" "gemini_client sv \<noteq> None"
    "top_k_products request = Some kp" "top_k_faqs request = Some kf"
  have ss: "strip ?q \<noteq> []" using a(1) by (simp add: strip_strip)
  have ev: "snd (query_chatbot sv request) =
      snd (retrieve_products sv ?q (min kp 10)) @ snd (retrieve_faqs sv ?q (min kf 5)) @
      [GenerateContent (build_prompt ?q (fst (retrieve_products sv ?q (min kp 10)))
                                        (fst (retrieve_faqs sv ?q (min kf 5))))]"
    by (simp add: query_chatbot_accepted [OF a] Let_def generate_events [OF a(5)])
  have p: "filter is_EmbedContent (snd (retrieve_products sv ?q (min kp 10))) = [EmbedContent ?q]"
    by (simp add: retrieve_products_events [OF a(1) ss a(3)] split: sum.splits option.splits)
  have f: "filter is_EmbedContent (snd (retrieve_faqs sv ?q (min kf 5))) = [EmbedContent ?q]"
    by (simp add: retrieve_faqs_events [OF a(1) ss a(4)] split: sum.splits option.splits)
  have v: "filter is_CollectionQuery (snd (query_chatbot sv request)) =
          [CollectionQuery ''products'' v (min (min kp 10) 10),
           CollectionQuery ''faqs'' v (min (min kf 5) 5)]"
    if "embed_content sv ?q = Inr (Some v)"
    using that
    by (simp add: ev retrieve_products_events [OF a(1) ss a(3)]
        retrieve_faqs_events [OF a(1) ss a(4)])
  show "filter is_EmbedContent (snd (query_chatbot sv request)) = [EmbedContent ?q, EmbedContent ?q] \<and>
     filter is_EmbedContent (snd (retrieve_products sv ?q (min kp 10))) = [EmbedContent ?q] \<and>
     filter is_EmbedContent (snd (retrieve_faqs sv ?q (min kf 5))) = [EmbedContent ?q] \<and>
     (embed_content sv ?q = Inr (Some v) \<longrightarrow>
        filter is_CollectionQuery (snd (query_chatbot sv request)) =
          [CollectionQuery ''products'' v (min (min kp 10) 10),
           CollectionQuery ''faqs'' v (min (min kf 5) 5)])"
    using p f v by (simp add: ev)
qed

lemma demo_accepted:
  "strip (query (demo_request ''return policy'' 3)) = ''return policy''"
  "products_collection (demo_services c) \<noteq> None" "faqs_collection (demo_services c) \<noteq> None"
  "gemini_client (demo_services c) \<noteq> None"
  "top_k_products (demo_request q k) = Some k" "top_k_faqs (demo_request q k) = Some k"
  by (simp_all add: demo_request_def demo_services_def strip_def is_space_def)

theorem embedded_per_collection_witness:
  "filter is_EmbedContent
     (snd (query_chatbot (demo_services demo_products) (demo_request ''return policy'' 3))) =
   [EmbedContent ''return policy'', EmbedContent ''return policy''] \<and>
   filter is_CollectionQuery
     (snd (query_chatbot (demo_services demo_products) (demo_request ''return policy'' 3))) =
   [CollectionQuery ''products'' 13 3, CollectionQuery ''faqs'' 13 3]"
proof -
  have "embed_content (demo_services demo_products) ''return policy'' = Inr (Some 13)"
    by (simp add: demo_services_def demo_provider_def)
  then show ?thesis
    using embedded_per_collection [of "demo_request ''return policy'' 3"
        "demo_services demo_products" 3 3 13]
    by (simp add: demo_accepted)
qed

text \<open>
  C3, as stated, fails in one point: the fallback text does not reflect the number of
  retrieved FAQs. With the same two products, a store with two matching FAQs and a store
  with none give the same sentence.
\<close>

theorem fallback_text_faq_count_counterexample:
  "map_sum id responseText
     (fst (query_chatbot (demo_services demo_products) (demo_request ''return policy'' 3))) =
   Inr ''I found 2 product(s) that match your query. Check them out below!'' \<and>
   map_sum id responseText
     (fst (query_chatbot demo_services_no_faqs (demo_request ''return policy'' 3))) =
   Inr ''I found 2 product(s) that match your query. Check them out below!'' \<and>
   map_sum id (length \<circ> faqs)
     (fst (query_chatbot (demo_services demo_products) (demo_request ''return policy'' 3))) = Inr 2 \<and>
   map_sum id (length \<circ> faqs)
     (fst (query_chatbot demo_services_no_faqs (demo_request ''return policy'' 3))) = Inr 0"
  by code_simp

text \<open>
  C3, amended: when an accepted request reaches the generative model and the call
  raises, the handler still returns a response, not an error, carrying the retrieved
  products and FAQs. Its \<open>responseText\<close> is never empty and is fixed by the two lists:
  with at least one product it is the sentence that states the number of products;
  with no product and at least one FAQ it is the sentence about helpful information;
  with neither it is the sentence that nothing was found. The number of FAQs is not
  in the text; \<open>conversationContext\<close> states both numbers.
\<close>

theorem generation_failure_fallback_text:
  assumes "strip (query request) \<noteq> []" "length (strip (query request)) \<le> 500"
    and "products_collection sv \<noteq> None" "faqs_collection sv \<noteq> None"
    and "gemini_client sv = Some generate_content"
    and "top_k_products request = Some kp" "top_k_faqs request = Some kf"
    and "isl (generate_content (build_prompt (strip (query request))
           (fst (retrieve_products sv (strip (query request)) (min kp 10)))
           (fst (retrieve_faqs sv (strip (query request)) (min kf 5)))))"
  shows "\<exists>resp. fst (query_chatbot sv request) = Inr resp \<and>
           products resp = fst (retrieve_products sv (strip (query request)) (min kp 10)) \<and>
           faqs resp = fst (retrieve_faqs sv (strip (query request)) (min kf 5)) \<and>
           responseText resp =
             (if products resp \<noteq> []
              then ''I found '' @ str_nat (length (products resp)) @
                   '' product(s) that match your query. Check them out below!''
              else if faqs resp \<noteq> []
              then ''I found some helpful information that might answer your question.''
              else ''I couldn't find exactly what you're looking for. Try rephrasing your question or browse our categories!'') \<and>
           responseText resp \<noteq> [] \<and>
           conversationContext resp =
             Some (''Found '' @ str_nat (length (products resp)) @ '' products and '' @
                   str_nat (length (faqs resp)) @ '' FAQs'')"
proof -
  have g: "gemini_client sv \<noteq> None" using assms(5) by simp
  have "fst (generate_response_with_gemini sv (strip (query request))
           (fst (retrieve_products sv (strip (query request)) (min kp 10)))
           (fst (retrieve_faqs sv (strip (query request)) (min kf 5)))) =
        fallback_response (length (fst (retrieve_products sv (strip (query request)) (min kp 10))))
           (length (fst (retrieve_faqs sv (strip (query request)) (min kf 5))))"
    using assms(5, 8)
    by (auto simp: generate_response_with_gemini_def Let_def split: sum.splits option.splits)
  then show ?thesis
    by (simp add: query_chatbot_accepted [OF assms(1-4) g assms(6,7)] Let_def fallback_response_def)
qed

theorem generation_failure_fallback_text_witness:
  "\<exists>resp. fst (query_chatbot (demo_services demo_products) (demo_request ''return policy'' 3)) = Inr resp \<and>
          responseText resp = ''I found 2 product(s) that match your query. Check them out below!'' \<and>
          length (products resp) = 2 \<and> length (faqs resp) = 2 \<and>
          conversationContext resp = Some ''Found 2 products and 2 FAQs''"
proof -
  have l: "length (fst (retrieve_products (demo_services demo_products) ''return policy'' 3)) = 2"
    "length (fst (retrieve_faqs (demo_services demo_products) ''return policy'' 3)) = 2"
    by code_simp+
  have n: "str_nat 2 = ''2''"
    by code_simp
  have g: "gemini_client (demo_services demo_products) = Some (\<lambda>prompt. Inl (ExternalError ''quota''))"
    by (simp add: demo_services_def)
  have "isl (Inl (ExternalError ''quota'') :: py_error + string option)"
    by simp
  then obtain resp where
    r: "fst (query_chatbot (demo_services demo_products) (demo_request ''return policy'' 3)) = Inr resp"
      "products resp = fst (retrieve_products (demo_services demo_products) ''return policy'' 3)"
      "faqs resp = fst (retrieve_faqs (demo_services demo_products) ''return policy'' 3)"
      "responseText resp =
             (if products resp \<noteq> []
              then ''I found '' @ str_nat (length (products resp)) @
                   '' product(s) that match your query. Check them out below!''
              else if faqs resp \<noteq> []
              then ''I found some helpful information that might answer your question.''
              else ''I couldn't find exactly what you're looking for. Try rephrasing your question or browse our categories!'')"
      "conversationContext resp =
             Some (''Found '' @ str_nat (length (products resp)) @ '' products and '' @
                   str_nat (length (faqs resp)) @ '' FAQs'')"
    using generation_failure_fallback_text [of "demo_request ''return policy'' 3"
        "demo_services demo_products" "\<lambda>prompt. Inl (ExternalError ''quota'')" 3 3]
    by (auto simp: demo_accepted g)
  have p: "products resp \<noteq> []" using r(2) l(1) by auto
  have lp: "length (products resp) = 2" "length (faqs resp) = 2"
    using r(2,3) l by simp_all
  show ?thesis
    using r(1) r(4) r(5) p lp by (intro exI [of _ resp]) (simp add: n)
qed

text \<open>
  C8: whatever \<open>top_k\<close> is asked for, \<open>retrieve_products\<close> returns at most 10 products
  and \<open>retrieve_faqs\<close> at most 5 FAQs, and so does every response of the handler.
\<close>

theorem retrieval_bounded:
  "length (fst (retrieve_products sv q top_k)) \<le> 10 \<and>
   length (fst (retrieve_faqs sv q top_k)) \<le> 5 \<and>
   (fst (query_chatbot sv request) = Inr resp \<longrightarrow>
      length (products resp) \<le> 10 \<and> length (faqs resp) \<le> 5)"
proof (intro conjI impI)
  show "length (fst (retrieve_products sv q top_k)) \<le> 10" by (rule retrieve_products_length)
  show "length (fst (retrieve_faqs sv q top_k)) \<le> 5" by (rule retrieve_faqs_length)
  assume r: "fst (query_chatbot sv request) = Inr resp"
  have p: "length ps \<le> 10" if "retrieve_products sv (strip (query request)) k = (ps, evs)" for k ps evs
    using retrieve_products_length [of sv "strip (query request)" k] that by simp
  have f: "length fs \<le> 5" if "retrieve_faqs sv (strip (query request)) k = (fs, evs)" for k fs evs
    using retrieve_faqs_length [of sv "strip (query request)" k] that by simp
  from r show "length (products resp) \<le> 10"
    by (auto simp: query_chatbot_def Let_def dest: p split: if_splits option.splits prod.splits)
  from r show "length (faqs resp) \<le> 5"
    by (auto simp: query_chatbot_def Let_def dest: f split: if_splits option.splits prod.splits)
qed

theorem retrieval_bounded_witness:
  "length (fst (retrieve_products (demo_services demo_catalog) ''case'' 1000)) = 10 \<and>
   length (fst (retrieve_faqs (demo_services demo_catalog) ''case'' 1000)) \<le> 5 \<and>
   (\<exists>resp. fst (query_chatbot (demo_services demo_catalog) (demo_request ''case'' 1000)) = Inr resp \<and>
           length (products resp) \<le> 10 \<and> length (faqs resp) \<le> 5)"
proof -
  have n: "length (fst (retrieve_products (demo_services demo_catalog) ''case'' 1000)) = 10"
    by code_simp
  have "\<not> isl (fst (query_chatbot (demo_services demo_catalog) (demo_request ''case'' 1000)))"
    by code_simp
  then obtain resp where
    r: "fst (query_chatbot (demo_services demo_catalog) (demo_request ''case'' 1000)) = Inr resp"
    by (cases "fst (query_chatbot (demo_services demo_catalog) (demo_request ''case'' 1000))") auto
  note inst = retrieval_bounded [of "demo_services demo_catalog" "''case''" 1000
      "demo_request ''case'' 1000" resp]
  have f: "length (fst (retrieve_faqs (demo_services demo_catalog) ''case'' 1000)) \<le> 5"
    by (rule inst [THEN conjunct2, THEN conjunct1])
  have "length (products resp) \<le> 10 \<and> length (faqs resp) \<le> 5"
    by (rule inst [THEN conjunct2, THEN conjunct2, THEN mp, OF r])
  with r n f show ?thesis by blast
qed

text \<open>
  C9, as stated, fails for the text as sent: a query of 501 characters that ends in
  whitespace is accepted, embedded and answered.
\<close>

theorem raw_length_counterexample:
  "500 < length (''hi'' @ replicate 499 CHR '' '') \<and>
   \<not> isl (fst (query_chatbot (demo_services demo_products)
                (demo_request (''hi'' @ replicate 499 CHR '' '') 3))) \<and>
   EmbedContent ''hi'' \<in> set (snd (query_chatbot (demo_services demo_products)
                (demo_request (''hi'' @ replicate 499 CHR '' '') 3)))"
  by code_simp

text \<open>
  C9, amended: a query whose text is longer than 500 characters after its leading and
  trailing whitespace is removed is rejected with status 400, and so is a query that
  is empty after that; in both cases no embedding, store or model call has been issued.
\<close>

theorem invalid_query_rejected:
  "(500 < length (strip (query request)) \<longrightarrow>
      query_chatbot sv request =
        (Inl (HTTPException 400 ''Query is too long. Max 500 characters.''), [])) \<and>
   (strip (query request) = [] \<longrightarrow>
      query_chatbot sv request = (Inl (HTTPException 400 ''Query cannot be empty.''), []))"
  by (auto simp: query_chatbot_def Let_def)

theorem invalid_query_rejected_witness:
  "query_chatbot (demo_services demo_products) (demo_request (replicate 501 CHR ''a'') 3) =
     (Inl (HTTPException 400 ''Query is too long. Max 500 characters.''), []) \<and>
   query_chatbot (demo_services demo_products) (demo_request [] 3) =
     (Inl (HTTPException 400 ''Query cannot be empty.''), [])"
proof -
  have "strip (replicate 501 CHR ''a'') = replicate 501 CHR ''a''"
    by (simp add: strip_def dropWhile_eq_self_iff is_space_def)
  then have "500 < length (strip (query (demo_request (replicate 501 CHR ''a'') 3)))"
    by (simp add: demo_request_def)
  moreover have "strip (query (demo_request [] 3)) = []"
    by (simp add: demo_request_def strip_def)
  ultimately show ?thesis
    using invalid_query_rejected [of "demo_request (replicate 501 CHR ''a'') 3" "demo_services demo_products"]
          invalid_query_rejected [of "demo_request [] 3" "demo_services demo_products"]
    by simp
qed



end
